theory Spec2Isabelle
  imports Main "HOL-Library.Multiset" "HOL-Library.Product_Lexorder"
begin

section \<open>dsym\_to\_index\_ranges.py: data model\<close>

text \<open>
  The script turns two textual dwarfdump listings into a table of named address
  ranges. Python integers are unbounded and every number of the script is parsed from
  unsigned hexadecimal or decimal digits, so addresses and offsets are \<^typ>\<open>nat\<close>.
  Text is \<^typ>\<open>string\<close>; a \<^typ>\<open>char\<close> stands for the code point of the same
  number, so the model covers input text whose code points are below 256.

  A debug entry is the dictionary \<open>cur\<close> of the script: the key \<open>tag\<close> is always
  present, each other key may be absent.
\<close>

record die =
  tag :: string
  off :: "nat option"
  low :: "nat option"
  high :: "nat option"
  ranges_off :: "nat option"
  name :: "string option"
  abs_ref :: "nat option"
  spec :: "nat option"

text \<open>The empty dictionary entry \<open>{'tag': t}\<close> opened by a tag line.\<close>

definition new_die :: "string \<Rightarrow> die" where
  "new_die t = \<lparr>tag = t, off = None, low = None, high = None, ranges_off = None,
                name = None, abs_ref = None, spec = None\<rparr>"

text \<open>One element of \<open>funcs\<close>: the dictionary \<open>{'start': s, 'end': e, 'name': n}\<close>.\<close>

record func_range =
  f_start :: nat
  f_end :: nat
  f_name :: string

text \<open>The record printed at the end of the run.\<close>

record result_record =
  r_image :: string
  r_uuid :: string
  r_arch :: string
  r_functions :: "func_range list"

text \<open>The rename map read from the JSON file: strings to strings.\<close>

type_synonym name_map = "string \<rightharpoonup> string"

type_synonym ranges_map = "nat \<rightharpoonup> (nat \<times> nat) list"

text \<open>
  The exceptions the script can raise on its two dumps; none of them is caught, so each
  ends the run. \<open>ValueError\<close> comes from \<open>int\<close>, \<open>RecursionError\<close> from the
  recursion of \<open>resolve_name\<close>.
\<close>

datatype error = ValueError | RecursionError

text \<open>Python truthiness of a value that is \<open>None\<close> or a string.\<close>

definition truthy :: "string option \<Rightarrow> bool" where
  "truthy v = (case v of None \<Rightarrow> False | Some s \<Rightarrow> s \<noteq> [])"

text \<open>\<open>name_map.get(k, k)\<close>.\<close>

definition map_get :: "name_map \<Rightarrow> string \<Rightarrow> string" where
  "map_get m k = (case m k of None \<Rightarrow> k | Some v \<Rightarrow> v)"

section \<open>Name resolution\<close>

text \<open>
  \<open>dies_by_off = { d['off']: d for d in dies if 'off' in d }\<close>: entries are
  inserted in list order, a later entry with the same offset replaces an earlier one.
\<close>

definition index_die :: "die \<Rightarrow> (nat \<rightharpoonup> die) \<Rightarrow> (nat \<rightharpoonup> die)" where
  "index_die d m = (case off d of None \<Rightarrow> m | Some k \<Rightarrow> m(k \<mapsto> d))"

definition dies_by_off :: "die list \<Rightarrow> nat \<rightharpoonup> die" where
  "dies_by_off dies = fold index_die dies Map.empty"

text \<open>The two keys the loop \<open>for k in ('abs','spec')\<close> runs over.\<close>

datatype link = K_abs | K_spec

fun link_of :: "link \<Rightarrow> die \<Rightarrow> nat option" where
  "link_of K_abs d = abs_ref d"
| "link_of K_spec d = spec d"

text \<open>
  \<open>resolve_name(d, seen)\<close>. The set \<open>seen\<close> is one mutable object shared by all
  the calls below a top-level call, so the model passes it in and returns it updated
  together with the result. \<open>resolve_links\<close> is the \<open>for\<close> loop over the remaining
  keys; falling off its end is \<open>return None\<close>. This is the function on a call stack
  that is deep enough; \<open>resolve_name_in\<close> below runs it within the interpreter's
  recursion limit.
\<close>

function resolve_name ::
    "name_map \<Rightarrow> die list \<Rightarrow> die \<Rightarrow> nat set \<Rightarrow> string option \<times> nat set"
  and resolve_links ::
    "name_map \<Rightarrow> die list \<Rightarrow> die \<Rightarrow> link list \<Rightarrow> nat set \<Rightarrow> string option \<times> nat set"
where
  "resolve_name nm dies d seen =
     (if truthy (name d) then (Some (map_get nm (the (name d))), seen)
      else resolve_links nm dies d [K_abs, K_spec] seen)"
| "resolve_links nm dies d [] seen = (None, seen)"
| "resolve_links nm dies d (k # ks) seen =
     (case link_of k d of
        None \<Rightarrow> resolve_links nm dies d ks seen
      | Some ref \<Rightarrow>
          if ref \<in> seen then resolve_links nm dies d ks seen
          else (case dies_by_off dies ref of
                  None \<Rightarrow> resolve_links nm dies d ks (insert ref seen)
                | Some d2 \<Rightarrow>
                    (case resolve_name nm dies d2 (insert ref seen) of
                       (nm2, seen') \<Rightarrow>
                         if truthy nm2 then (Some (map_get nm (the nm2)), seen')
                         else resolve_links nm dies d ks seen')))"
  by pat_completeness auto

text \<open>
  Termination: a recursive call of \<open>resolve_name\<close> happens only for an offset of the
  index that is not yet in \<open>seen\<close>, and \<open>seen\<close> never shrinks. The index is finite.
\<close>

lemma finite_dom_fold_index: "finite (dom m) \<Longrightarrow> finite (dom (fold index_die ds m))"
  by (induction ds arbitrary: m) (auto simp: index_die_def split: option.splits)

lemma finite_dom_dies_by_off: "finite (dom (dies_by_off dies))"
  by (simp add: dies_by_off_def finite_dom_fold_index)

lemma resolve_seen_mono_dom:
  "resolve_name_resolve_links_dom (Inl (nm, dies, d, seen)) \<Longrightarrow>
     seen \<subseteq> snd (resolve_name nm dies d seen)"
  "resolve_name_resolve_links_dom (Inr (nm, dies, d, ks, seen)) \<Longrightarrow>
     seen \<subseteq> snd (resolve_links nm dies d ks seen)"
proof (induction nm dies d seen and nm dies d ks seen rule: resolve_name_resolve_links.pinduct)
  case (1 nm dies d seen)
  then show ?case by (simp add: resolve_name.psimps)
next
  case (2 nm dies d seen)
  then show ?case by (simp add: resolve_links.psimps)
next
  case (3 nm dies d k ks seen)
  show ?case
  proof (cases "link_of k d")
    case None
    with 3 show ?thesis by (simp add: resolve_links.psimps)
  next
    case (Some ref)
    show ?thesis
    proof (cases "ref \<in> seen")
      case True
      with 3 Some show ?thesis by (simp add: resolve_links.psimps)
    next
      case False
      show ?thesis
      proof (cases "dies_by_off dies ref")
        case None
        with 3 Some False show ?thesis by (auto simp: resolve_links.psimps)
      next
        case d2: (Some d2)
        obtain nm2 seen' where r: "resolve_name nm dies d2 (insert ref seen) = (nm2, seen')"
          by (cases "resolve_name nm dies d2 (insert ref seen)")
        from 3(5)[OF Some False d2] r have sub: "insert ref seen \<subseteq> seen'" by simp
        show ?thesis
        proof (cases "truthy nm2")
          case True
          with 3(1) Some False d2 r sub show ?thesis by (auto simp: resolve_links.psimps)
        next
          case nt: False
          from 3(6)[OF Some False d2 r[symmetric] nt]
          have "seen' \<subseteq> snd (resolve_links nm dies d ks seen')" .
          with 3(1) Some False d2 r sub nt show ?thesis by (auto simp: resolve_links.psimps)
        qed
      qed
    qed
  qed
qed

termination resolve_name
proof (relation "inv_image (less_than <*lex*> less_than)
    (\<lambda>x. case x of
        Inl (nm, dies, d, seen) \<Rightarrow> (card (dom (dies_by_off dies) - seen), 3::nat)
      | Inr (nm, dies, d, ks, seen) \<Rightarrow> (card (dom (dies_by_off dies) - seen), length ks))",
    goal_cases)
  case 1
  show ?case by (intro wf_inv_image wf_lex_prod wf_less_than)
next
  case (2 nm dies d seen)
  show ?case by simp
next
  case (3 nm dies d k ks seen)
  show ?case by simp
next
  case (4 nm dies d k ks seen ref)
  show ?case by simp
next
  case (5 nm dies d k ks seen ref)
  have "card (dom (dies_by_off dies) - insert ref seen) \<le> card (dom (dies_by_off dies) - seen)"
    by (rule card_mono) (auto simp: finite_dom_dies_by_off)
  then show ?case by auto
next
  case (6 nm dies d k ks seen ref d2)
  then have "ref \<in> dom (dies_by_off dies) - seen" by auto
  then have "card (dom (dies_by_off dies) - insert ref seen) < card (dom (dies_by_off dies) - seen)"
    by (intro psubset_card_mono) (auto simp: finite_dom_dies_by_off)
  then show ?case by simp
next
  case (7 nm dies d k ks seen ref d2 nm2 seen')
  then have "insert ref seen \<subseteq> seen'"
    using resolve_seen_mono_dom(1)[of nm dies d2 "insert ref seen"] by (metis snd_conv)
  then have "card (dom (dies_by_off dies) - seen') \<le> card (dom (dies_by_off dies) - seen)"
    by (intro card_mono) (auto simp: finite_dom_dies_by_off)
  then show ?case by auto
qed

section \<open>Text: character classes and numbers\<close>

text \<open>
  The classes are those of Python's \<open>re\<close> on \<open>str\<close> patterns, restricted to code
  points below 256: \<open>\s\<close> is Unicode white space, \<open>\w\<close> is Unicode alphanumeric or
  the underscore, a bracket class is exactly the characters it lists, and \<open>.\<close> is any
  character but the line feed.
\<close>

definition is_space :: "char \<Rightarrow> bool" where
  "is_space c = (let n = (of_char c :: nat) in
     (9 \<le> n \<and> n \<le> 13) \<or> (28 \<le> n \<and> n \<le> 32) \<or> n = 133 \<or> n = 160)"

definition is_word :: "char \<Rightarrow> bool" where
  "is_word c = (let n = (of_char c :: nat) in
     (48 \<le> n \<and> n \<le> 57) \<or> (65 \<le> n \<and> n \<le> 90) \<or> n = 95 \<or> (97 \<le> n \<and> n \<le> 122) \<or>
     n = 170 \<or> n = 178 \<or> n = 179 \<or> n = 181 \<or> n = 185 \<or> n = 186 \<or>
     (188 \<le> n \<and> n \<le> 190) \<or> (192 \<le> n \<and> n \<le> 214) \<or> (216 \<le> n \<and> n \<le> 246) \<or>
     (248 \<le> n \<and> n \<le> 255))"

definition is_dec :: "char \<Rightarrow> bool" where
  "is_dec c = (let n = (of_char c :: nat) in 48 \<le> n \<and> n \<le> 57)"

definition is_hex :: "char \<Rightarrow> bool" where
  "is_hex c = (let n = (of_char c :: nat) in
     (48 \<le> n \<and> n \<le> 57) \<or> (97 \<le> n \<and> n \<le> 102) \<or> (65 \<le> n \<and> n \<le> 70))"

text \<open>The class \<open>[0-9A-Fa-fx]\<close> of the two address tokens of a ranges line.\<close>

definition is_hexx :: "char \<Rightarrow> bool" where
  "is_hexx c = (is_hex c \<or> c = CHR ''x'')"

definition not_nl :: "char \<Rightarrow> bool" where
  "not_nl c = (c \<noteq> CHR 0x0A)"

text \<open>
  The value of one digit, and \<open>int(s, 16)\<close> on a string of hexadecimal digits, which
  has no length limit.
\<close>

definition digit_val :: "char \<Rightarrow> nat" where
  "digit_val c = (let n = (of_char c :: nat) in
     if 48 \<le> n \<and> n \<le> 57 then n - 48
     else if 97 \<le> n \<and> n \<le> 102 then n - 87
     else n - 55)"

definition int_hex :: "string \<Rightarrow> nat" where
  "int_hex s = fold (\<lambda>c acc. 16 * acc + digit_val c) s 0"

text \<open>
  \<open>int(s)\<close> on a string of decimal digits: the interpreter refuses a decimal string of
  more than \<open>sys.get_int_max_str_digits()\<close> digits, 4300 unless configured otherwise,
  leading zeros counted, with \<open>ValueError\<close>.
\<close>

definition dec_val :: "string \<Rightarrow> nat" where
  "dec_val s = fold (\<lambda>c acc. 10 * acc + digit_val c) s 0"

definition int_max_str_digits :: nat where
  "int_max_str_digits = 4300"

definition int_dec :: "string \<Rightarrow> error + nat" where
  "int_dec s = (if length s > int_max_str_digits then Inl ValueError else Inr (dec_val s))"

text \<open>\<open>str.lower\<close> on the letters that can occur in an address token.\<close>

definition lower_ascii :: "char \<Rightarrow> char" where
  "lower_ascii c = (let n = (of_char c :: nat) in
     if 65 \<le> n \<and> n \<le> 90 then char_of (n + 32) else c)"

text \<open>\<open>str.strip()\<close> and \<open>str.rstrip('\n')\<close>.\<close>

definition strip :: "string \<Rightarrow> string" where
  "strip s = rev (dropWhile is_space (rev (dropWhile is_space s)))"

definition rstrip_nl :: "string \<Rightarrow> string" where
  "rstrip_nl s = rev (dropWhile (\<lambda>c. c = CHR 0x0A) (rev s))"

section \<open>The regular expressions of the script\<close>

text \<open>
  The patterns use a small fragment of \<open>re\<close>: literals, a greedy repetition of a
  character class with a lower bound (\<open>\s*\<close>, \<open>\s+\<close>), the same as a capture group
  (\<open>([0-9a-fA-F]{4,})\<close>), a lazy captured repetition (\<open>(.+?)\<close>), an optional
  non-capturing group, a captured choice of literals, and the word boundary \<open>\b\<close>.
  \<open>rx_match\<close> is the backtracking matcher of \<open>re\<close> on this fragment: the items are
  matched left to right, a greedy repetition tries the longest run first, a lazy one the
  shortest first, and the first alternative for which the rest of the pattern matches
  wins. The result lists the captured groups in order. \<open>prev\<close> is the character before
  the current position, which \<open>\b\<close> looks at.
\<close>

datatype item =
    Lit string
  | Rep "char \<Rightarrow> bool" nat
  | Cap "char \<Rightarrow> bool" nat
  | CapLazy "char \<Rightarrow> bool" nat
  | Opt "item list"
  | CapAlt "string list"
  | WordB

fun first_some :: "('a \<Rightarrow> 'b option) \<Rightarrow> 'a list \<Rightarrow> 'b option" where
  "first_some f [] = None"
| "first_some f (x # xs) = (case f x of Some y \<Rightarrow> Some y | None \<Rightarrow> first_some f xs)"

definition adv :: "char option \<Rightarrow> string \<Rightarrow> nat \<Rightarrow> char option" where
  "adv prev s k = (if k = 0 then prev else Some (s ! (k - 1)))"

definition at_boundary :: "char option \<Rightarrow> string \<Rightarrow> bool" where
  "at_boundary prev s =
     ((case prev of None \<Rightarrow> False | Some c \<Rightarrow> is_word c) \<noteq>
      (case s of [] \<Rightarrow> False | c # _ \<Rightarrow> is_word c))"

fun item_size :: "item \<Rightarrow> nat" where
  "item_size (Opt xs) = Suc (sum_list (map item_size xs))"
| "item_size _ = 1"

function rx_match :: "item list \<Rightarrow> char option \<Rightarrow> string \<Rightarrow> string list option" where
  "rx_match [] prev s = Some []"
| "rx_match (Lit l # r) prev s =
     (if take (length l) s = l
      then rx_match r (adv prev s (length l)) (drop (length l) s)
      else None)"
| "rx_match (Rep p n # r) prev s =
     first_some (\<lambda>k. rx_match r (adv prev s k) (drop k s))
       (rev [n ..< Suc (length (takeWhile p s))])"
| "rx_match (Cap p n # r) prev s =
     first_some (\<lambda>k. map_option ((#) (take k s)) (rx_match r (adv prev s k) (drop k s)))
       (rev [n ..< Suc (length (takeWhile p s))])"
| "rx_match (CapLazy p n # r) prev s =
     first_some (\<lambda>k. map_option ((#) (take k s)) (rx_match r (adv prev s k) (drop k s)))
       [n ..< Suc (length (takeWhile p s))]"
| "rx_match (Opt xs # r) prev s =
     (case rx_match (xs @ r) prev s of
        Some caps \<Rightarrow> Some caps
      | None \<Rightarrow> rx_match r prev s)"
| "rx_match (CapAlt ls # r) prev s =
     first_some (\<lambda>l. if take (length l) s = l
                     then map_option ((#) l) (rx_match r (adv prev s (length l)) (drop (length l) s))
                     else None) ls"
| "rx_match (WordB # r) prev s = (if at_boundary prev s then rx_match r prev s else None)"
  by pat_completeness auto
termination
  by (relation "measure (\<lambda>(items, prev, s). sum_list (map item_size items))") auto

text \<open>
  The number of groups of a pattern. The optional groups of the script hold no capture
  group, which \<open>plain_opts\<close> says; then a match returns one string for each group, so
  that \<open>m.group(n)\<close> below is always an element of the list.
\<close>

fun n_groups :: "item list \<Rightarrow> nat" where
  "n_groups [] = 0"
| "n_groups (Cap p n # r) = Suc (n_groups r)"
| "n_groups (CapLazy p n # r) = Suc (n_groups r)"
| "n_groups (CapAlt ls # r) = Suc (n_groups r)"
| "n_groups (Opt xs # r) = n_groups r"
| "n_groups (_ # r) = n_groups r"

fun plain_opts :: "item list \<Rightarrow> bool" where
  "plain_opts [] = True"
| "plain_opts (Opt xs # r) = (n_groups xs = 0 \<and> plain_opts xs \<and> plain_opts r)"
| "plain_opts (_ # r) = plain_opts r"

text \<open>\<open>pattern.match(s)\<close>: the pattern at position 0.\<close>

definition re_match :: "item list \<Rightarrow> string \<Rightarrow> string list option" where
  "re_match items s = rx_match items None s"

text \<open>\<open>pattern.search(s)\<close>: the pattern at the leftmost position where it matches.\<close>

fun search_from :: "item list \<Rightarrow> char option \<Rightarrow> string \<Rightarrow> string list option" where
  "search_from items prev [] = rx_match items prev []"
| "search_from items prev (c # cs) =
     (case rx_match items prev (c # cs) of
        Some caps \<Rightarrow> Some caps
      | None \<Rightarrow> search_from items (Some c) cs)"

definition re_search :: "item list \<Rightarrow> string \<Rightarrow> string list option" where
  "re_search items s = search_from items None s"

text \<open>\<open>m.group(n)\<close> for \<open>n \<ge> 1\<close>.\<close>

definition grp :: "nat \<Rightarrow> string list \<Rightarrow> string" where
  "grp n caps = caps ! (n - 1)"

definition sp0 :: item where "sp0 = Rep is_space 0"

definition sp1 :: item where "sp1 = Rep is_space 1"

definition rx_dr :: "item list" where
  "rx_dr = [sp0, Cap is_hex 4, sp1, Cap is_hexx 1, sp1, Cap is_hexx 1]"

definition rx_any_tag :: "item list" where
  "rx_any_tag = [WordB, CapAlt [''DW_TAG_'', ''TAG_''], Cap is_word 1]"

definition rx_low :: "item list" where
  "rx_low = [Lit ''DW_AT_low_pc'', sp0, Lit ''('', sp0, Opt [Lit ''addr:'', sp0],
             Lit ''0x'', Cap is_hex 1, sp0, Lit '')'']"

definition rx_hia :: "item list" where
  "rx_hia = [Lit ''DW_AT_high_pc'', sp0, Lit ''('', sp0, Opt [Lit ''addr:'', sp0],
             Lit ''0x'', Cap is_hex 1, sp0, Lit '')'']"

definition rx_hiud :: "item list" where
  "rx_hiud = [Lit ''DW_AT_high_pc'', sp0, Lit ''('', sp0, Lit ''udata:'', sp0,
              Cap is_dec 1, sp0, Lit '')'']"

definition rx_ranges :: "item list" where
  "rx_ranges = [Lit ''DW_AT_ranges'', sp0, Lit ''('', sp0, Lit ''0x'', Cap is_hex 1, sp0, Lit '')'']"

definition rx_name :: "item list" where
  "rx_name = [Lit ''DW_AT_name'', sp0, Lit [CHR ''('', CHR 0x22], CapLazy not_nl 1,
              Lit [CHR 0x22, CHR '')'']]"

definition rx_link :: "item list" where
  "rx_link = [Lit ''DW_AT_linkage_name'', sp0, Lit [CHR ''('', CHR 0x22], CapLazy not_nl 1,
              Lit [CHR 0x22, CHR '')'']]"

definition rx_abs :: "item list" where
  "rx_abs = [Lit ''DW_AT_abstract_origin'', sp0, Lit ''('', sp0, Lit ''0x'', Cap is_hex 1, sp0,
             Lit '')'']"

definition rx_spec :: "item list" where
  "rx_spec = [Lit ''DW_AT_specification'', sp0, Lit ''('', sp0, Lit ''0x'', Cap is_hex 1, sp0,
              Lit '')'']"

definition rx_die_off :: "item list" where
  "rx_die_off = [sp0, Lit ''0x'', Cap is_hex 1, Lit '':'']"

section \<open>The ranges table\<close>

text \<open>
  Lines 43 to 46 for one address token: lower it, prefix \<open>0x\<close> unless it starts with
  it, and read it with \<open>int(a, 16)\<close>. The token consists of hexadecimal digits and
  \<open>x\<close>; \<open>int\<close> accepts it when what follows the prefix is a non-empty string of
  hexadecimal digits and raises \<open>ValueError\<close> otherwise.
\<close>

definition parse_addr :: "string \<Rightarrow> error + nat" where
  "parse_addr g =
     (let a = map lower_ascii g;
          a' = (if take 2 a = ''0x'' then a else ''0x'' @ a);
          body = drop 2 a'
      in if body \<noteq> [] \<and> list_all is_hex body then Inr (int_hex body) else Inl ValueError)"

text \<open>\<open>ranges_map.setdefault(off, []).append((s, e))\<close>.\<close>

definition append_pair :: "ranges_map \<Rightarrow> nat \<Rightarrow> nat \<times> nat \<Rightarrow> ranges_map" where
  "append_pair rm k p = rm(k \<mapsto> (case rm k of None \<Rightarrow> [] | Some ps \<Rightarrow> ps) @ [p])"

text \<open>
  The body of the loop over the ranges dump (lines 39 to 50), on the state
  \<open>(ranges_map, pairs)\<close>. An exception ends the run.
\<close>

definition dr_line :: "ranges_map \<times> nat \<Rightarrow> string \<Rightarrow> error + ranges_map \<times> nat" where
  "dr_line st raw =
     (case re_match rx_dr raw of
        None \<Rightarrow> Inr st
      | Some m \<Rightarrow>
          (case parse_addr (grp 2 m) of
             Inl err \<Rightarrow> Inl err
           | Inr s \<Rightarrow>
               (case parse_addr (grp 3 m) of
                  Inl err \<Rightarrow> Inl err
                | Inr e \<Rightarrow>
                    if s = 0 \<and> e = 0 then Inr st
                    else Inr (append_pair (fst st) (int_hex (grp 1 m)) (s, e), snd st + 1))))"

fun dr_lines :: "ranges_map \<times> nat \<Rightarrow> string list \<Rightarrow> error + ranges_map \<times> nat" where
  "dr_lines st [] = Inr st"
| "dr_lines st (raw # raws) =
     (case dr_line st raw of Inl err \<Rightarrow> Inl err | Inr st' \<Rightarrow> dr_lines st' raws)"

definition build_ranges :: "string list \<Rightarrow> error + ranges_map" where
  "build_ranges raws = (case dr_lines (Map.empty, 0) raws of Inl err \<Rightarrow> Inl err | Inr st \<Rightarrow> Inr (fst st))"

section \<open>The debug entries\<close>

text \<open>
  Lines 79 to 94: one attribute line applied to the open entry \<open>cur\<close>. The patterns are
  tried in the order of the script; a high-address line that finds no \<open>low\<close> in the
  entry does not \<open>continue\<close>, so the later patterns are still tried on that line. The
  only call that can raise is the \<open>int\<close> of the decimal delta at line 84.
\<close>

definition attr_line :: "die \<Rightarrow> string \<Rightarrow> error + die" where
  "attr_line cur line =
     (case re_search rx_low line of
        Some m \<Rightarrow> Inr (cur\<lparr>low := Some (int_hex (grp 1 m))\<rparr>)
      | None \<Rightarrow>
     (case (re_search rx_hia line, low cur) of
        (Some m, Some l) \<Rightarrow> Inr (cur\<lparr>high := Some (int_hex (grp 1 m))\<rparr>)
      | _ \<Rightarrow>
     (case (re_search rx_hiud line, low cur) of
        (Some m, Some l) \<Rightarrow>
          (case int_dec (grp 1 m) of
             Inl err \<Rightarrow> Inl err
           | Inr delta \<Rightarrow> Inr (cur\<lparr>high := Some (l + delta)\<rparr>))
      | _ \<Rightarrow>
     (case re_search rx_ranges line of
        Some m \<Rightarrow> Inr (cur\<lparr>ranges_off := Some (int_hex (grp 1 m))\<rparr>)
      | None \<Rightarrow>
     (case re_search rx_name line of
        Some m \<Rightarrow> Inr (cur\<lparr>name := Some (grp 1 m)\<rparr>)
      | None \<Rightarrow>
     (case (re_search rx_link line, name cur) of
        (Some m, None) \<Rightarrow> Inr (cur\<lparr>name := Some (grp 1 m)\<rparr>)
      | _ \<Rightarrow>
     (case re_search rx_abs line of
        Some m \<Rightarrow> Inr (cur\<lparr>abs_ref := Some (int_hex (grp 1 m))\<rparr>)
      | None \<Rightarrow>
     (case re_search rx_spec line of
        Some m \<Rightarrow> Inr (cur\<lparr>spec := Some (int_hex (grp 1 m))\<rparr>)
      | None \<Rightarrow> Inr cur))))))))"

text \<open>
  The body of the loop over the debug-info dump (lines 69 to 94), on the state
  \<open>(dies, cur)\<close>. A line with a tag closes the open entry and opens a new one.
\<close>

definition di_line ::
    "die list \<times> die option \<Rightarrow> string \<Rightarrow> error + die list \<times> die option" where
  "di_line st raw =
     (let line = rstrip_nl raw; dies = fst st; cur = snd st in
      case re_search rx_any_tag line of
        Some mtag \<Rightarrow>
          Inr ((case cur of None \<Rightarrow> dies | Some c \<Rightarrow> dies @ [c]),
               Some ((new_die (''DW_TAG_'' @ grp 2 mtag))
                       \<lparr>off := (case re_match rx_die_off line of
                                  None \<Rightarrow> None
                                | Some moff \<Rightarrow> Some (int_hex (grp 1 moff)))\<rparr>))
      | None \<Rightarrow>
          (case cur of
             None \<Rightarrow> Inr (dies, None)
           | Some c \<Rightarrow>
               (case attr_line c line of
                  Inl err \<Rightarrow> Inl err
                | Inr c' \<Rightarrow> Inr (dies, Some c'))))"

fun di_lines ::
    "die list \<times> die option \<Rightarrow> string list \<Rightarrow> error + die list \<times> die option" where
  "di_lines st [] = Inr st"
| "di_lines st (raw # raws) =
     (case di_line st raw of Inl err \<Rightarrow> Inl err | Inr st' \<Rightarrow> di_lines st' raws)"

text \<open>The whole pass, with line 95: \<open>if cur: dies.append(cur)\<close>.\<close>

definition build_dies :: "string list \<Rightarrow> error + die list" where
  "build_dies raws =
     (case di_lines ([], None) raws of
        Inl err \<Rightarrow> Inl err
      | Inr (dies, None) \<Rightarrow> Inr dies
      | Inr (dies, Some c) \<Rightarrow> Inr (dies @ [c]))"

section \<open>Demangling\<close>

text \<open>
  The external tool is outside the script. \<open>swift_ok\<close> is the value of \<open>_swift_ok\<close>
  (demangling requested and the tool found); \<open>swift_run\<close> is the call of the tool on a
  name: its standard output, or \<open>None\<close> when the call raises. The memoisation of
  \<open>swift_demangle_one\<close> does not change its value.
\<close>

record swift =
  swift_ok :: bool
  swift_run :: "string \<Rightarrow> string option"

text \<open>\<open>SWIFT_MANGLED_RX.match\<close>: the name starts with \<open>$s\<close>, \<open>_$s\<close>, \<open>_T\<close> or \<open>$S\<close>.\<close>

definition swift_mangled :: "string \<Rightarrow> bool" where
  "swift_mangled s =
     (take 2 s = ''$s'' \<or> take 3 s = ''_$s'' \<or> take 2 s = ''_T'' \<or> take 2 s = ''$S'')"

definition swift_demangle_one :: "swift \<Rightarrow> string \<Rightarrow> string" where
  "swift_demangle_one sw mangled =
     (if \<not> swift_ok sw then mangled
      else if \<not> swift_mangled mangled then mangled
      else (case swift_run sw mangled of
              None \<Rightarrow> mangled
            | Some out \<Rightarrow> (let s = strip out in if s \<noteq> [] then s else mangled)))"

definition maybe_demangle :: "name_map \<Rightarrow> swift \<Rightarrow> string \<Rightarrow> string" where
  "maybe_demangle nm sw n =
     (if n = [] then n else swift_demangle_one sw (map_get nm n))"

section \<open>Emission\<close>

definition subprogram_like :: "die \<Rightarrow> bool" where
  "subprogram_like d =
     (tag d = ''DW_TAG_subprogram'' \<or> tag d = ''DW_TAG_inlined_subroutine'')"

text \<open>
  Lines 171 and 172: \<open>name = resolve_name(d) or d.get('name')\<close>, then
  \<open>name = maybe_demangle(name) if name else None\<close>. This is the value of \<open>name\<close> in
  a run that reaches line 172: a call of \<open>resolve_name\<close> that exceeds the recursion limit
  ends the run before (\<open>resolve_name_in\<close> and \<open>run\<close> below), and every other call
  returns what \<open>resolve_name\<close> returns here.
\<close>

definition emit_name :: "name_map \<Rightarrow> swift \<Rightarrow> die list \<Rightarrow> die \<Rightarrow> string option" where
  "emit_name nm sw dies d =
     (let r = fst (resolve_name nm dies d {});
          n = (if truthy r then r else name d)
      in if truthy n then Some (maybe_demangle nm sw (the n)) else None)"

text \<open>
  \<open>if name: funcs.append({...}) else: miss_name += 1\<close>, on the state
  \<open>(funcs, miss_name)\<close>.
\<close>

definition emit_range ::
    "string option \<Rightarrow> nat \<Rightarrow> nat \<Rightarrow> func_range list \<times> nat \<Rightarrow> func_range list \<times> nat" where
  "emit_range n s e st =
     (if truthy n then (fst st @ [\<lparr>f_start = s, f_end = e, f_name = the n\<rparr>], snd st)
      else (fst st, snd st + 1))"

text \<open>Lines 174 to 176: the direct pair of the entry.\<close>

definition emit_direct ::
    "string option \<Rightarrow> die \<Rightarrow> func_range list \<times> nat \<Rightarrow> func_range list \<times> nat" where
  "emit_direct n d st =
     (case (low d, high d) of
        (Some l, Some h) \<Rightarrow> if h > l then emit_range n l h st else st
      | _ \<Rightarrow> st)"

text \<open>Lines 178 to 183: the pairs of the ranges table under the entry's offset.\<close>

definition emit_pair ::
    "string option \<Rightarrow> nat \<times> nat \<Rightarrow> func_range list \<times> nat \<Rightarrow> func_range list \<times> nat" where
  "emit_pair n p st = (if snd p > fst p then emit_range n (fst p) (snd p) st else st)"

definition emit_indirect ::
    "ranges_map \<Rightarrow> string option \<Rightarrow> die \<Rightarrow> func_range list \<times> nat \<Rightarrow> func_range list \<times> nat" where
  "emit_indirect rm n d st =
     (case ranges_off d of
        None \<Rightarrow> st
      | Some roff \<Rightarrow>
          (case rm roff of
             None \<Rightarrow> st
           | Some ps \<Rightarrow> fold (emit_pair n) ps st))"

text \<open>The body of the loop over \<open>dies\<close> (lines 169 to 183).\<close>

definition emit_die ::
    "name_map \<Rightarrow> swift \<Rightarrow> ranges_map \<Rightarrow> die list \<Rightarrow> die \<Rightarrow>
     func_range list \<times> nat \<Rightarrow> func_range list \<times> nat" where
  "emit_die nm sw rm dies d st =
     (if \<not> subprogram_like d then st
      else let n = emit_name nm sw dies d
           in emit_indirect rm n d (emit_direct n d st))"

definition emit_all ::
    "name_map \<Rightarrow> swift \<Rightarrow> ranges_map \<Rightarrow> die list \<Rightarrow> func_range list \<times> nat" where
  "emit_all nm sw rm dies = fold (emit_die nm sw rm dies) dies ([], 0)"

text \<open>
  \<open>funcs.sort(key=lambda x: (x['start'], x['end']))\<close>: a stable sort on the pair, which
  Python compares lexicographically.
\<close>

definition sort_funcs :: "func_range list \<Rightarrow> func_range list" where
  "sort_funcs fs = sort_key (\<lambda>x. (f_start x, f_end x)) fs"

definition final_funcs ::
    "name_map \<Rightarrow> swift \<Rightarrow> ranges_map \<Rightarrow> die list \<Rightarrow> func_range list" where
  "final_funcs nm sw rm dies = sort_funcs (fst (emit_all nm sw rm dies))"

definition miss_name :: "name_map \<Rightarrow> swift \<Rightarrow> ranges_map \<Rightarrow> die list \<Rightarrow> nat" where
  "miss_name nm sw rm dies = snd (emit_all nm sw rm dies)"

section \<open>The recursion limit\<close>

text \<open>
  \<open>resolve_name\<close> calls itself once for each reference it follows (line 114), and the
  interpreter raises \<open>RecursionError\<close> when the calls nest deeper than its recursion
  limit allows. \<open>resolve_name_in depth\<close> is \<open>resolve_name\<close> run with room for \<open>depth\<close>
  nested calls of itself, the outermost included: with no room left the call raises,
  and an exception in a nested call passes through the callers, none of which catches
  it. The room depends on the interpreter: with the default limit of 1000 frames
  CPython 3.11 runs 998 nested calls of a function called from the module level, as
  line 171 does.
\<close>

function resolve_name_in ::
    "nat \<Rightarrow> name_map \<Rightarrow> die list \<Rightarrow> die \<Rightarrow> nat set \<Rightarrow> error + string option \<times> nat set"
  and resolve_links_in ::
    "nat \<Rightarrow> name_map \<Rightarrow> die list \<Rightarrow> die \<Rightarrow> link list \<Rightarrow> nat set \<Rightarrow>
     error + string option \<times> nat set"
where
  "resolve_name_in depth nm dies d seen =
     (if depth = 0 then Inl RecursionError
      else if truthy (name d) then Inr (Some (map_get nm (the (name d))), seen)
      else resolve_links_in (depth - 1) nm dies d [K_abs, K_spec] seen)"
| "resolve_links_in room nm dies d [] seen = Inr (None, seen)"
| "resolve_links_in room nm dies d (k # ks) seen =
     (case link_of k d of
        None \<Rightarrow> resolve_links_in room nm dies d ks seen
      | Some ref \<Rightarrow>
          if ref \<in> seen then resolve_links_in room nm dies d ks seen
          else (case dies_by_off dies ref of
                  None \<Rightarrow> resolve_links_in room nm dies d ks (insert ref seen)
                | Some d2 \<Rightarrow>
                    (case resolve_name_in room nm dies d2 (insert ref seen) of
                       Inl err \<Rightarrow> Inl err
                     | Inr (nm2, seen') \<Rightarrow>
                         if truthy nm2 then Inr (Some (map_get nm (the nm2)), seen')
                         else resolve_links_in room nm dies d ks seen')))"
  by pat_completeness auto
termination resolve_name_in
  by (relation "inv_image (less_than <*lex*> less_than)
        (\<lambda>x. case x of
            Inl (depth, nm, dies, d, seen) \<Rightarrow> (2 * depth, 0::nat)
          | Inr (room, nm, dies, d, ks, seen) \<Rightarrow> (2 * room + 1, length ks))")
     auto


text \<open>
  The loop of lines 168 to 183 calls \<open>resolve_name\<close> for every subprogram-like entry,
  in order; the first call that raises ends the run.
\<close>

definition resolve_raises :: "nat \<Rightarrow> name_map \<Rightarrow> die list \<Rightarrow> bool" where
  "resolve_raises depth nm dies =
     list_ex (\<lambda>d. subprogram_like d \<and> isl (resolve_name_in depth nm dies d {})) dies"

text \<open>
  The whole run on the lines of the two dumps, with room for \<open>depth\<close> nested calls of
  \<open>resolve_name\<close>: the printed record, or the exception that ends the run. The record is
  printed after the loop, so a run that raises prints nothing; where no call of
  \<open>resolve_name\<close> raises, each returns what \<open>resolve_name\<close> on a deep enough stack
  returns (\<open>resolve_name_in_sound\<close> below), and the loop is \<open>emit_all\<close>.
\<close>

definition run ::
    "nat \<Rightarrow> string \<Rightarrow> string \<Rightarrow> string \<Rightarrow> name_map \<Rightarrow> swift \<Rightarrow> string list \<Rightarrow> string list \<Rightarrow>
     error + result_record" where
  "run depth img uid ar nm sw dr di =
     (case build_ranges dr of
        Inl err \<Rightarrow> Inl err
      | Inr rm \<Rightarrow>
          (case build_dies di of
             Inl err \<Rightarrow> Inl err
           | Inr dies \<Rightarrow>
               if resolve_raises depth nm dies then Inl RecursionError
               else Inr \<lparr>r_image = img, r_uuid = uid, r_arch = ar,
                         r_functions = final_funcs nm sw rm dies\<rparr>))"

section \<open>Vocabulary of the properties\<close>

text \<open>
  The address pairs of an entry that pass the width check \<open>end > start\<close>: the direct
  pair first, then the pairs of the ranges table in table order.
\<close>

definition direct_pairs :: "die \<Rightarrow> (nat \<times> nat) list" where
  "direct_pairs d =
     (case (low d, high d) of
        (Some l, Some h) \<Rightarrow> if h > l then [(l, h)] else []
      | _ \<Rightarrow> [])"

definition indirect_pairs :: "ranges_map \<Rightarrow> die \<Rightarrow> (nat \<times> nat) list" where
  "indirect_pairs rm d =
     (case ranges_off d of
        None \<Rightarrow> []
      | Some roff \<Rightarrow> (case rm roff of None \<Rightarrow> [] | Some ps \<Rightarrow> filter (\<lambda>p. snd p > fst p) ps))"

definition emittable_pairs :: "ranges_map \<Rightarrow> die \<Rightarrow> (nat \<times> nat) list" where
  "emittable_pairs rm d = direct_pairs d @ indirect_pairs rm d"

definition named :: "string \<Rightarrow> nat \<times> nat \<Rightarrow> func_range" where
  "named n p = \<lparr>f_start = fst p, f_end = snd p, f_name = n\<rparr>"

text \<open>
  \<open>reaches dies d d'\<close>: the entry \<open>d'\<close> is \<open>d\<close> itself or is found from \<open>d\<close> by
  following abstract-origin and specification references through the offset index.
\<close>

inductive reaches :: "die list \<Rightarrow> die \<Rightarrow> die \<Rightarrow> bool" for dies :: "die list" and d :: die where
  here: "reaches dies d d"
| hop: "reaches dies d d1 \<Longrightarrow> link_of k d1 = Some ref \<Longrightarrow> dies_by_off dies ref = Some d2 \<Longrightarrow>
        reaches dies d d2"

text \<open>
  The ranges table as the dump describes it. \<open>dr_parsed\<close> is the triple of a line that
  matches the ranges pattern and whose two address tokens are read by \<open>int\<close>;
  \<open>pairs_at raws k\<close> lists, in the order of the lines, the pairs of the triples with
  offset \<open>k\<close> other than the pair of two zeros. \<open>pairs_of\<close> and \<open>table_at\<close> read a
  table: \<open>ranges_map.get(k, [])\<close>, and the entry of a table that may not have been built.
\<close>

definition dr_parsed :: "string \<Rightarrow> (nat \<times> nat \<times> nat) option" where
  "dr_parsed raw =
     (case re_match rx_dr raw of
        None \<Rightarrow> None
      | Some m \<Rightarrow>
          (case (parse_addr (grp 2 m), parse_addr (grp 3 m)) of
             (Inr s, Inr e) \<Rightarrow> Some (int_hex (grp 1 m), s, e)
           | _ \<Rightarrow> None))"

definition pairs_at :: "string list \<Rightarrow> nat \<Rightarrow> (nat \<times> nat) list" where
  "pairs_at raws k =
     map snd (filter (\<lambda>t. fst t = k \<and> snd t \<noteq> (0, 0)) (List.map_filter dr_parsed raws))"

definition pairs_of :: "ranges_map \<Rightarrow> nat \<Rightarrow> (nat \<times> nat) list" where
  "pairs_of rm k = (case rm k of None \<Rightarrow> [] | Some ps \<Rightarrow> ps)"

definition table_at :: "error + ranges_map \<Rightarrow> nat \<Rightarrow> (nat \<times> nat) list option" where
  "table_at r k = (case r of Inl err \<Rightarrow> None | Inr rm \<Rightarrow> rm k)"

text \<open>What every element of the output has to satisfy.\<close>

definition valid_range :: "func_range \<Rightarrow> bool" where
  "valid_range f = (f_start f < f_end f \<and> f_name f \<noteq> [])"

text \<open>
  Concrete inputs for the examples: demangling switched off, and a few entries as the
  builder produces them.
\<close>

definition no_swift :: swift where
  "no_swift = \<lparr>swift_ok = False, swift_run = (\<lambda>_. None)\<rparr>"

definition subprogram :: die where
  "subprogram = new_die ''DW_TAG_subprogram''"

definition ex_named :: die where
  "ex_named = subprogram\<lparr>low := Some 1, high := Some 2, ranges_off := Some 0, name := Some ''f''\<rparr>"

definition ex_unnamed :: die where
  "ex_unnamed = subprogram\<lparr>low := Some 3, high := Some 5\<rparr>"

definition ex_ranges :: ranges_map where
  "ex_ranges = [0 \<mapsto> [(1, 2)]]"

definition ex_three :: die where
  "ex_three = subprogram\<lparr>low := Some 16, high := Some 32, ranges_off := Some 7, name := Some ''g''\<rparr>"

definition ex_two_pairs :: ranges_map where
  "ex_two_pairs = [7 \<mapsto> [(64, 80), (96, 100)]]"

definition ex_obf :: die where
  "ex_obf = subprogram\<lparr>off := Some 16, low := Some 1, high := Some 2, name := Some ''obf''\<rparr>"

definition ex_inlined :: die where
  "ex_inlined = (new_die ''DW_TAG_inlined_subroutine'')\<lparr>low := Some 4, high := Some 8, abs_ref := Some 16\<rparr>"

definition ex_chain_map :: name_map where
  "ex_chain_map = [''a'' \<mapsto> ''b'', ''b'' \<mapsto> ''c'']"

definition ex_a :: die where
  "ex_a = subprogram\<lparr>low := Some 1, high := Some 2, name := Some ''a''\<rparr>"






definition ex_bad_dump :: "string list" where
  "ex_bad_dump = [''1000 0x1 0x2'', ''1000 x1 0x5'']"

definition ex_low_only :: die where
  "ex_low_only = subprogram\<lparr>low := Some 256, name := Some ''foo''\<rparr>"

definition ex_udata_line :: string where
  "ex_udata_line = ''DW_AT_high_pc (udata: 32)''"

declare resolve_name.simps [simp del] resolve_links.simps [simp del]

declare resolve_name_in.simps [simp del] resolve_links_in.simps [simp del]

section \<open>The groups of a match\<close>

lemma first_some_SomeD: "first_some f xs = Some y \<Longrightarrow> \<exists>x \<in> set xs. f x = Some y"
  by (induction xs) (auto split: option.splits)

lemma n_groups_append: "n_groups (xs @ r) = n_groups xs + n_groups r"
  by (induction xs rule: n_groups.induct) auto

lemma plain_opts_append: "plain_opts (xs @ r) = (plain_opts xs \<and> plain_opts r)"
  by (induction xs rule: plain_opts.induct) auto

lemma rx_match_groups:
  "plain_opts items \<Longrightarrow> rx_match items prev s = Some m \<Longrightarrow> length m = n_groups items"
proof (induction items prev s arbitrary: m rule: rx_match.induct)
  case (1 prev s)
  then show ?case by simp
next
  case (2 l r prev s)
  then show ?case by (auto split: if_splits)
next
  case (3 p n r prev s)
  from 3(3) have "first_some (\<lambda>k. rx_match r (adv prev s k) (drop k s))
      (rev [n ..< Suc (length (takeWhile p s))]) = Some m" by simp
  from first_some_SomeD[OF this]
  obtain k where "k \<in> set (rev [n ..< Suc (length (takeWhile p s))])"
      "rx_match r (adv prev s k) (drop k s) = Some m"
    by blast
  with 3(1)[of k m] 3(2) show ?case by simp
next
  case (4 p n r prev s)
  from 4(3) have "first_some (\<lambda>k. map_option ((#) (take k s)) (rx_match r (adv prev s k) (drop k s)))
      (rev [n ..< Suc (length (takeWhile p s))]) = Some m" by simp
  from first_some_SomeD[OF this]
  obtain k where k: "k \<in> set (rev [n ..< Suc (length (takeWhile p s))])"
      "map_option ((#) (take k s)) (rx_match r (adv prev s k) (drop k s)) = Some m"
    by blast
  then obtain m' where "rx_match r (adv prev s k) (drop k s) = Some m'" "m = take k s # m'"
    by auto
  with 4(1)[of k m'] 4(2) k(1) show ?case by simp
next
  case (5 p n r prev s)
  from 5(3) have "first_some (\<lambda>k. map_option ((#) (take k s)) (rx_match r (adv prev s k) (drop k s)))
      [n ..< Suc (length (takeWhile p s))] = Some m" by simp
  from first_some_SomeD[OF this]
  obtain k where k: "k \<in> set [n ..< Suc (length (takeWhile p s))]"
      "map_option ((#) (take k s)) (rx_match r (adv prev s k) (drop k s)) = Some m"
    by blast
  then obtain m' where "rx_match r (adv prev s k) (drop k s) = Some m'" "m = take k s # m'"
    by auto
  with 5(1)[of k m'] 5(2) k(1) show ?case by simp
next
  case (6 xs r prev s)
  then show ?case
    by (auto simp: n_groups_append plain_opts_append split: option.splits)
next
  case (7 ls r prev s)
  from 7(3) have "first_some (\<lambda>l. if take (length l) s = l
         then map_option ((#) l) (rx_match r (adv prev s (length l)) (drop (length l) s))
         else None) ls = Some m" by simp
  from first_some_SomeD[OF this]
  obtain l where l: "l \<in> set ls"
      "(if take (length l) s = l
         then map_option ((#) l) (rx_match r (adv prev s (length l)) (drop (length l) s))
         else None) = Some m"
    by blast
  then obtain m' where "take (length l) s = l"
      "rx_match r (adv prev s (length l)) (drop (length l) s) = Some m'" "m = l # m'"
    by (auto split: if_splits)
  with 7(1)[of l m'] 7(2) l(1) show ?case by simp
next
  case (8 r prev s)
  then show ?case by (auto split: if_splits)
qed

lemma search_from_groups:
  "plain_opts items \<Longrightarrow> search_from items prev s = Some m \<Longrightarrow> length m = n_groups items"
  by (induction items prev s rule: search_from.induct)
     (auto split: option.splits dest: rx_match_groups)

lemma match_groups:
  "re_match rx_dr s = Some m \<Longrightarrow> length m = 3"
  "re_match rx_die_off s = Some m \<Longrightarrow> length m = 1"
  using rx_match_groups[of rx_dr None s m] rx_match_groups[of rx_die_off None s m]
  by (simp_all add: re_match_def rx_dr_def rx_die_off_def sp0_def sp1_def)

lemma search_groups:
  "re_search rx_any_tag s = Some m \<Longrightarrow> length m = 2"
  "re_search rx_low s = Some m \<Longrightarrow> length m = 1"
  "re_search rx_hia s = Some m \<Longrightarrow> length m = 1"
  "re_search rx_hiud s = Some m \<Longrightarrow> length m = 1"
  "re_search rx_ranges s = Some m \<Longrightarrow> length m = 1"
  "re_search rx_name s = Some m \<Longrightarrow> length m = 1"
  "re_search rx_link s = Some m \<Longrightarrow> length m = 1"
  "re_search rx_abs s = Some m \<Longrightarrow> length m = 1"
  "re_search rx_spec s = Some m \<Longrightarrow> length m = 1"
  using search_from_groups[of rx_any_tag None s m] search_from_groups[of rx_low None s m]
    search_from_groups[of rx_hia None s m] search_from_groups[of rx_hiud None s m]
    search_from_groups[of rx_ranges None s m] search_from_groups[of rx_name None s m]
    search_from_groups[of rx_link None s m] search_from_groups[of rx_abs None s m]
    search_from_groups[of rx_spec None s m]
  by (simp_all add: re_search_def rx_any_tag_def rx_low_def rx_hia_def rx_hiud_def rx_ranges_def
      rx_name_def rx_link_def rx_abs_def rx_spec_def sp0_def)

section \<open>The ranges pattern and the table built from a dump\<close>

lemma first_some_None: "(\<And>x. x \<in> set xs \<Longrightarrow> f x = None) \<Longrightarrow> first_some f xs = None"
  by (induction xs) auto

lemma cap_too_short: "length (takeWhile p s) < n \<Longrightarrow> rx_match (Cap p n # r) prev s = None"
  by simp

lemma space_not_hex: "is_space c \<Longrightarrow> \<not> is_hex c"
  by (auto simp: is_space_def is_hex_def Let_def)

lemma drop_inside_takeWhile:
  assumes "k < length (takeWhile P xs)"
  shows "\<exists>y ys. drop k xs = y # ys \<and> P y"
proof -
  have k: "k < length xs" using assms length_takeWhile_le[of P xs] by simp
  then have "drop k xs = xs ! k # drop (Suc k) xs" by (simp add: Cons_nth_drop_Suc)
  moreover have "P (xs ! k)" using assms by (metis nth_mem set_takeWhileD takeWhile_nth)
  ultimately show ?thesis by blast
qed

lemma drop_length_takeWhile: "drop (length (takeWhile P xs)) xs = dropWhile P xs"
  by (induction xs) auto

lemma rx_dr_short_offset:
  assumes "length (takeWhile is_hex (dropWhile is_space raw)) < 4"
  shows "re_match rx_dr raw = None"
proof -
  let ?n = "length (takeWhile is_space raw)"
  let ?rest = "[sp1, Cap is_hexx 1, sp1, Cap is_hexx 1]"
  have "rx_match (Cap is_hex 4 # ?rest) (adv None raw k) (drop k raw) = None"
    if "k \<in> set (rev [0 ..< Suc ?n])" for k
  proof (cases "k < ?n")
    case True
    then obtain y ys where d: "drop k raw = y # ys" "is_space y"
      using drop_inside_takeWhile[of k is_space raw] by blast
    then have "takeWhile is_hex (drop k raw) = []" by (simp add: space_not_hex)
    then show ?thesis by (intro cap_too_short) simp
  next
    case False
    with that have "k = ?n" by simp
    then have "drop k raw = dropWhile is_space raw" by (simp add: drop_length_takeWhile)
    with assms show ?thesis by (intro cap_too_short) simp
  qed
  then show ?thesis
    unfolding re_match_def rx_dr_def sp0_def
    by (simp only: rx_match.simps) (rule first_some_None)
qed


lemma dr_lines_append:
  "dr_lines st (xs @ ys) = (case dr_lines st xs of Inl err \<Rightarrow> Inl err | Inr st' \<Rightarrow> dr_lines st' ys)"
  by (induction xs arbitrary: st) (auto split: sum.splits)

lemma pairs_at_Cons: "pairs_at (raw # raws) k = pairs_at [raw] k @ pairs_at raws k"
  by (simp add: pairs_at_def List.map_filter_def)

lemma pairs_at_Nil: "pairs_at [] k = []"
  by (simp add: pairs_at_def List.map_filter_def)

lemma pairs_of_append_pair:
  "pairs_of (append_pair rm k' p) k = pairs_of rm k @ (if k = k' then [p] else [])"
  by (simp add: pairs_of_def append_pair_def)

lemma dr_line_pairs:
  assumes "dr_line st raw = Inr st'"
  shows "pairs_of (fst st') k = pairs_of (fst st) k @ pairs_at [raw] k"
  using assms
  by (auto simp: dr_line_def pairs_at_def List.map_filter_def dr_parsed_def pairs_of_append_pair
      split: option.splits sum.splits if_splits)

lemma dr_lines_pairs:
  "dr_lines st raws = Inr st' \<Longrightarrow> pairs_of (fst st') k = pairs_of (fst st) k @ pairs_at raws k"
proof (induction raws arbitrary: st)
  case Nil
  then show ?case by (simp add: pairs_at_Nil)
next
  case (Cons raw raws)
  from Cons.prems obtain st1 where s1: "dr_line st raw = Inr st1" "dr_lines st1 raws = Inr st'"
    by (auto split: sum.splits)
  from Cons.IH[OF s1(2)] dr_line_pairs[OF s1(1), of k] show ?case
    by (simp add: pairs_at_Cons[of raw raws])
qed

lemma dr_line_nonempty:
  assumes "dr_line st raw = Inr st'" "\<And>k. fst st k \<noteq> Some []"
  shows "fst st' k \<noteq> Some []"
  using assms(1) assms(2)[of k]
  by (auto simp: dr_line_def append_pair_def split: option.splits sum.splits if_splits)

lemma dr_lines_nonempty:
  "dr_lines st raws = Inr st' \<Longrightarrow> (\<And>k. fst st k \<noteq> Some []) \<Longrightarrow> fst st' k \<noteq> Some []"
proof (induction raws arbitrary: st)
  case Nil
  then show ?case by simp
next
  case (Cons raw raws)
  from Cons.prems(1) obtain st1 where s1: "dr_line st raw = Inr st1" "dr_lines st1 raws = Inr st'"
    by (auto split: sum.splits)
  show ?case
    by (rule Cons.IH[OF s1(2)]) (rule dr_line_nonempty[OF s1(1) Cons.prems(2)])
qed

text \<open>
  A dump on which the loop ends without an exception: the list stored under an offset
  is the list of the pairs parsed from the matching lines with that offset, in the
  order of the lines, without the pairs of two zeros.
\<close>

lemma ranges_table_encounter_order:
  assumes "build_ranges raws = Inr rm"
  shows "rm k = (if pairs_at raws k = [] then None else Some (pairs_at raws k)) \<and>
         (0, 0) \<notin> set (pairs_of rm k)"
proof -
  from assms obtain st where st: "dr_lines (Map.empty, 0) raws = Inr st" "rm = fst st"
    by (auto simp: build_ranges_def split: sum.splits)
  have p: "pairs_of rm k = pairs_at raws k"
    using dr_lines_pairs[OF st(1), of k] st(2) by (simp add: pairs_of_def)
  have ne: "rm k \<noteq> Some []"
    using dr_lines_nonempty[OF st(1), of k] st(2) by simp
  have "rm k = (if pairs_at raws k = [] then None else Some (pairs_at raws k))"
    using p ne by (auto simp: pairs_of_def split: option.splits)
  moreover have "(0, 0) \<notin> set (pairs_at raws k)" by (auto simp: pairs_at_def)
  ultimately show ?thesis using p by simp
qed

text \<open>
  A dump with a line that matches the pattern and has an address token that \<open>int\<close>
  does not read: the run ends with \<open>ValueError\<close>, whatever the other lines are.
\<close>

lemma parse_addr_error: "parse_addr g = Inl err \<Longrightarrow> err = ValueError"
  by (simp add: parse_addr_def Let_def split: if_splits)

lemma dr_line_error: "dr_line st raw = Inl err \<Longrightarrow> err = ValueError"
  by (auto simp: dr_line_def split: option.splits sum.splits if_splits dest: parse_addr_error)

lemma dr_line_bad_token:
  assumes "re_match rx_dr raw = Some m"
      and "isl (parse_addr (grp 2 m)) \<or> isl (parse_addr (grp 3 m))"
  shows "dr_line st raw = Inl ValueError"
  using assms
  by (auto simp: dr_line_def isl_def split: sum.splits dest: parse_addr_error)

lemma dr_lines_bad_token:
  assumes "raw \<in> set raws" and "\<And>st. dr_line st raw = Inl ValueError"
  shows "dr_lines st raws = Inl ValueError"
  using assms(1)
proof (induction raws arbitrary: st)
  case Nil
  then show ?case by simp
next
  case (Cons a raws)
  show ?case
  proof (cases "dr_line st a")
    case (Inl err)
    then show ?thesis by (simp add: dr_line_error)
  next
    case (Inr st')
    show ?thesis
    proof (cases "raw = a")
      case True
      with Inr assms(2)[of st] show ?thesis by simp
    next
      case False
      with Cons.prems have "raw \<in> set raws" by simp
      from Cons.IH[OF this] Inr show ?thesis by simp
    qed
  qed
qed

lemma build_ranges_bad_token:
  assumes "raw \<in> set raws" and "re_match rx_dr raw = Some m"
      and "isl (parse_addr (grp 2 m)) \<or> isl (parse_addr (grp 3 m))"
  shows "build_ranges raws = Inl ValueError"
  using dr_lines_bad_token[OF assms(1) dr_line_bad_token[OF assms(2,3)]]
  by (simp add: build_ranges_def)

section \<open>The high address of an entry\<close>

lemma attr_line_delta:
  assumes "re_search rx_low line = None" "re_search rx_hia line = None"
    "re_search rx_hiud line = Some m" "low cur = Some l"
    "length (grp 1 m) \<le> int_max_str_digits"
  shows "attr_line cur line = Inr (cur\<lparr>high := Some (l + dec_val (grp 1 m))\<rparr>)"
  using assms by (simp add: attr_line_def int_dec_def)

lemma attr_line_delta_too_long:
  assumes "re_search rx_low line = None" "re_search rx_hia line = None"
    "re_search rx_hiud line = Some m" "low cur = Some l"
    "length (grp 1 m) > int_max_str_digits"
  shows "attr_line cur line = Inl ValueError"
  using assms by (simp add: attr_line_def int_dec_def)

lemma attr_line_no_low:
  assumes "low cur = None"
  shows "\<exists>c'. attr_line cur line = Inr c' \<and> high c' = high cur"
  using assms by (simp add: attr_line_def split: option.splits)

lemma emit_direct_only_wide:
  assumes "emit_direct n d st \<noteq> st"
  shows "\<exists>lo hi. low d = Some lo \<and> high d = Some hi \<and> lo < hi"
  using assms by (auto simp: emit_direct_def split: option.splits if_splits)

section \<open>Emission: what one entry adds\<close>

lemma fold_emit_pair_named:
  "n \<noteq> [] \<Longrightarrow> fold (emit_pair (Some n)) ps st =
     (fst st @ map (named n) (filter (\<lambda>p. snd p > fst p) ps), snd st)"
  by (induction ps arbitrary: st) (auto simp: emit_pair_def emit_range_def truthy_def named_def)

lemma fold_emit_pair_unnamed:
  "\<not> truthy n \<Longrightarrow> fold (emit_pair n) ps st =
     (fst st, snd st + length (filter (\<lambda>p. snd p > fst p) ps))"
  by (induction ps arbitrary: st) (auto simp: emit_pair_def emit_range_def)

lemma emit_direct_named:
  "n \<noteq> [] \<Longrightarrow> emit_direct (Some n) d st = (fst st @ map (named n) (direct_pairs d), snd st)"
  by (auto simp: emit_direct_def direct_pairs_def emit_range_def truthy_def named_def
           split: option.splits)

lemma emit_direct_unnamed:
  "\<not> truthy n \<Longrightarrow> emit_direct n d st = (fst st, snd st + length (direct_pairs d))"
  by (auto simp: emit_direct_def direct_pairs_def emit_range_def split: option.splits)

lemma emit_indirect_named:
  "n \<noteq> [] \<Longrightarrow> emit_indirect rm (Some n) d st = (fst st @ map (named n) (indirect_pairs rm d), snd st)"
  by (auto simp: emit_indirect_def indirect_pairs_def fold_emit_pair_named split: option.splits)

lemma emit_indirect_unnamed:
  "\<not> truthy n \<Longrightarrow> emit_indirect rm n d st = (fst st, snd st + length (indirect_pairs rm d))"
  by (auto simp: emit_indirect_def indirect_pairs_def fold_emit_pair_unnamed split: option.splits)

lemma emit_die_named:
  assumes "subprogram_like d" "emit_name nm sw dies d = Some n" "n \<noteq> []"
  shows "emit_die nm sw rm dies d st = (fst st @ map (named n) (emittable_pairs rm d), snd st)"
  using assms by (simp add: emit_die_def emit_direct_named emit_indirect_named emittable_pairs_def)

lemma emit_die_unnamed:
  assumes "subprogram_like d" "\<not> truthy (emit_name nm sw dies d)"
  shows "emit_die nm sw rm dies d st = (fst st, snd st + length (emittable_pairs rm d))"
  using assms by (simp add: emit_die_def emit_direct_unnamed emit_indirect_unnamed emittable_pairs_def)

lemma emit_die_other: "\<not> subprogram_like d \<Longrightarrow> emit_die nm sw rm dies d st = st"
  by (simp add: emit_die_def)

lemma emittable_pairs_wide: "p \<in> set (emittable_pairs rm d) \<Longrightarrow> fst p < snd p"
  by (auto simp: emittable_pairs_def direct_pairs_def indirect_pairs_def split: option.splits if_splits)

lemma emit_die_valid:
  assumes "list_all valid_range (fst st)"
  shows "list_all valid_range (fst (emit_die nm sw rm dies d st))"
proof (cases "subprogram_like d")
  case False
  with assms show ?thesis by (simp add: emit_die_other)
next
  case sp: True
  show ?thesis
  proof (cases "truthy (emit_name nm sw dies d)")
    case False
    with sp assms show ?thesis by (simp add: emit_die_unnamed)
  next
    case True
    then obtain n where n: "emit_name nm sw dies d = Some n" "n \<noteq> []"
      by (auto simp: truthy_def split: option.splits)
    have "list_all valid_range (map (named n) (emittable_pairs rm d))"
      using n(2) by (auto simp: list_all_iff valid_range_def named_def dest: emittable_pairs_wide)
    with sp n assms show ?thesis by (simp add: emit_die_named)
  qed
qed

lemma fold_emit_die_valid:
  "list_all valid_range (fst st) \<Longrightarrow>
   list_all valid_range (fst (fold (emit_die nm sw rm dies0) ds st))"
proof (induction ds arbitrary: st)
  case Nil
  then show ?case by simp
next
  case (Cons d ds)
  from Cons.prems have "list_all valid_range (fst (emit_die nm sw rm dies0 d st))"
    by (rule emit_die_valid)
  then show ?case using Cons.IH by simp
qed

lemma emit_all_valid: "list_all valid_range (fst (emit_all nm sw rm dies))"
  by (simp add: emit_all_def fold_emit_die_valid)

lemma set_final_funcs: "set (final_funcs nm sw rm dies) = set (fst (emit_all nm sw rm dies))"
  by (simp add: final_funcs_def sort_funcs_def)

lemma resolve_name_direct:
  "name d = Some n \<Longrightarrow> n \<noteq> [] \<Longrightarrow> resolve_name nm dies d seen = (Some (map_get nm n), seen)"
  by (simp add: resolve_name.simps truthy_def)

lemma resolve_falsy_emit_falsy:
  assumes "\<not> truthy (fst (resolve_name nm dies d {}))"
  shows "\<not> truthy (emit_name nm sw dies d)"
proof (cases "truthy (name d)")
  case True
  then obtain n where n: "name d = Some n" "n \<noteq> []"
    by (auto simp: truthy_def split: option.splits)
  with assms have "map_get nm n = []" by (simp add: truthy_def resolve_name_direct)
  with n assms show ?thesis
    by (simp add: emit_name_def truthy_def maybe_demangle_def swift_demangle_one_def swift_mangled_def)
next
  case False
  with assms show ?thesis by (simp add: emit_name_def Let_def truthy_def)
qed

section \<open>The name an entry is emitted with\<close>

lemma resolve_name_one_hop:
  assumes "\<not> truthy (name d)" "abs_ref d = Some r" "dies_by_off dies r = Some d2"
      and "name d2 = Some n" "n \<noteq> []" "map_get nm n \<noteq> []"
  shows "fst (resolve_name nm dies d {}) = Some (map_get nm (map_get nm n))"
  using assms
  by (simp add: resolve_name.simps[of nm dies d] resolve_links.simps resolve_name_direct truthy_def)

lemma emit_name_direct:
  assumes "name d = Some n" "n \<noteq> []" "map_get nm n \<noteq> []"
  shows "emit_name nm sw dies d = Some (swift_demangle_one sw (map_get nm (map_get nm n)))"
  using assms by (simp add: emit_name_def resolve_name_direct truthy_def maybe_demangle_def)

lemma emit_name_one_hop:
  assumes "\<not> truthy (name d)" "abs_ref d = Some r" "dies_by_off dies r = Some d2"
      and "name d2 = Some n" "n \<noteq> []" "map_get nm n \<noteq> []" "map_get nm (map_get nm n) \<noteq> []"
  shows "emit_name nm sw dies d =
           Some (swift_demangle_one sw (map_get nm (map_get nm (map_get nm n))))"
  using assms resolve_name_one_hop[OF assms(1-6)]
  by (simp add: emit_name_def truthy_def maybe_demangle_def)

lemma plain_not_mangled: "swift_demangle_one sw ''Original'' = ''Original''"
  by (simp add: swift_demangle_one_def swift_mangled_def)

section \<open>Resolution finds nothing where there is no name\<close>




section \<open>Resolution within the recursion limit\<close>

lemma resolve_seen_mono:
  "seen \<subseteq> snd (resolve_name nm dies d seen)"
  "seen \<subseteq> snd (resolve_links nm dies d ks seen)"
proof (induction nm dies d seen and nm dies d ks seen rule: resolve_name_resolve_links.induct)
  case (1 nm dies d seen)
  then show ?case by (simp add: resolve_name.simps)
next
  case (2 nm dies d seen)
  then show ?case by (simp add: resolve_links.simps)
next
  case (3 nm dies d k ks seen)
  show ?case
  proof (cases "link_of k d")
    case None
    with 3 show ?thesis by (simp add: resolve_links.simps)
  next
    case (Some ref)
    show ?thesis
    proof (cases "ref \<in> seen")
      case True
      with 3 Some show ?thesis by (simp add: resolve_links.simps)
    next
      case False
      show ?thesis
      proof (cases "dies_by_off dies ref")
        case None
        with 3 Some False show ?thesis by (auto simp: resolve_links.simps)
      next
        case d2: (Some d2)
        obtain nm2 seen' where r: "resolve_name nm dies d2 (insert ref seen) = (nm2, seen')"
          by (cases "resolve_name nm dies d2 (insert ref seen)")
        from 3(4)[OF Some False d2] r have sub: "insert ref seen \<subseteq> seen'" by simp
        show ?thesis
        proof (cases "truthy nm2")
          case True
          with Some False d2 r sub show ?thesis by (auto simp: resolve_links.simps)
        next
          case nt: False
          from 3(5)[OF Some False d2 r[symmetric] nt]
          have "seen' \<subseteq> snd (resolve_links nm dies d ks seen')" .
          with Some False d2 r sub nt show ?thesis by (auto simp: resolve_links.simps)
        qed
      qed
    qed
  qed
qed




lemma resolve_name_in_sound:
  "resolve_name_in depth nm dies d seen = Inr r \<Longrightarrow> r = resolve_name nm dies d seen"
  "resolve_links_in room nm dies d ks seen = Inr r \<Longrightarrow> r = resolve_links nm dies d ks seen"
proof (induction depth nm dies d seen and room nm dies d ks seen arbitrary: r and r
    rule: resolve_name_in_resolve_links_in.induct)
  case (1 depth nm dies d seen)
  then show ?case
    by (auto simp: resolve_name.simps resolve_name_in.simps split: if_splits)
next
  case (2 room nm dies d seen)
  then show ?case by (simp add: resolve_links.simps resolve_links_in.simps)
next
  case (3 room nm dies d k ks seen)
  show ?case
  proof (cases "link_of k d")
    case None
    with 3(1)[OF None] 3(6) show ?thesis by (simp add: resolve_links.simps resolve_links_in.simps)
  next
    case (Some ref)
    show ?thesis
    proof (cases "ref \<in> seen")
      case True
      with 3(2)[OF Some True] 3(6) Some show ?thesis
        by (simp add: resolve_links.simps resolve_links_in.simps)
    next
      case False
      show ?thesis
      proof (cases "dies_by_off dies ref")
        case None
        with 3(3)[OF Some False None] 3(6) Some False show ?thesis
          by (simp add: resolve_links.simps resolve_links_in.simps)
      next
        case d2: (Some d2)
        from 3(6) Some False d2 obtain nm2 seen' where
          inner: "resolve_name_in room nm dies d2 (insert ref seen) = Inr (nm2, seen')"
          by (auto simp: resolve_links_in.simps split: sum.splits)
        from 3(4)[OF Some False d2 inner]
        have r: "resolve_name nm dies d2 (insert ref seen) = (nm2, seen')" by simp
        show ?thesis
        proof (cases "truthy nm2")
          case True
          with 3(6) Some False d2 inner r show ?thesis
            by (simp add: resolve_links.simps resolve_links_in.simps)
        next
          case nt: False
          with 3(6) Some False d2 inner
          have "resolve_links_in room nm dies d ks seen' = Inr r"
            by (simp add: resolve_links_in.simps)
          from 3(5)[OF Some False d2 inner refl nt this] Some False d2 r nt show ?thesis
            by (simp add: resolve_links.simps)
        qed
      qed
    qed
  qed
qed




section \<open>Sorting\<close>


section \<open>Claims\<close>

text \<open>
  C1, as claimed: the printed \<open>functions\<close> list holds no triple twice. The script never
  removes a duplicate: an entry whose direct pair also stands in the ranges table under
  its offset is printed twice.
\<close>

theorem C1_counterexample:
  "\<not> distinct (final_funcs Map.empty no_swift ex_ranges [ex_named])"
  by code_simp

text \<open>
  C1, amended: the printed \<open>functions\<close> list holds exactly the ranges the loop appended,
  each as often as it was appended; sorting reorders them and nothing is removed.
\<close>

theorem C1_all_emitted_kept:
  "mset (final_funcs nm sw rm dies) = mset (fst (emit_all nm sw rm dies))"
  by (simp add: final_funcs_def sort_funcs_def)




text \<open>
  C3. A subprogram-like entry with a direct pair \<open>high > low\<close>, whose ranges offset is in
  the table with exactly two pairs, both with \<open>end > start\<close>, and whose name (the value of
  \<open>name\<close> after lines 171 and 172) is non-empty, appends exactly three ranges: the direct
  one, then the two of the table, all with that name.
\<close>

theorem C3_three_ranges:
  assumes "subprogram_like d"
      and "low d = Some l" and "high d = Some h" and "l < h"
      and "ranges_off d = Some roff" and "rm roff = Some [(s1, e1), (s2, e2)]"
      and "s1 < e1" and "s2 < e2"
      and "emit_name nm sw dies d = Some n" and "n \<noteq> []"
  shows "emit_die nm sw rm dies d st =
           (fst st @ [\<lparr>f_start = l, f_end = h, f_name = n\<rparr>,
                      \<lparr>f_start = s1, f_end = e1, f_name = n\<rparr>,
                      \<lparr>f_start = s2, f_end = e2, f_name = n\<rparr>], snd st)"
  using assms
  by (simp add: emit_die_named emittable_pairs_def direct_pairs_def indirect_pairs_def named_def)

theorem C3_witness:
  "subprogram_like ex_three \<and> low ex_three = Some 16 \<and> high ex_three = Some 32 \<and>
   ranges_off ex_three = Some 7 \<and> ex_two_pairs 7 = Some [(64, 80), (96, 100)] \<and>
   emit_name Map.empty no_swift [ex_three] ex_three = Some ''g'' \<and>
   emit_die Map.empty no_swift ex_two_pairs [ex_three] ex_three ([], 0) =
     ([\<lparr>f_start = 16, f_end = 32, f_name = ''g''\<rparr>,
       \<lparr>f_start = 64, f_end = 80, f_name = ''g''\<rparr>,
       \<lparr>f_start = 96, f_end = 100, f_name = ''g''\<rparr>], 0)"
  using C3_three_ranges[of ex_three 16 32 7 ex_two_pairs 64 80 96 100 Map.empty no_swift
      "[ex_three]" "''g''" "([], 0)"]
  by code_simp

text \<open>
  C4. Every line that matches the ranges pattern adds its pair to the list of its
  offset, unless the pair is two zeros. The script does so on the dumps whose matching
  lines carry address tokens that \<open>int\<close> reads (\<open>ranges_table_encounter_order\<close>). The
  class of the address tokens admits \<open>x\<close> at any place, and line 46 reads the token
  without a check: on the dump \<open>ex_bad_dump\<close> the first line is a well-formed triple
  with a pair other than two zeros, the second line matches the pattern, its token
  \<open>x1\<close> makes \<open>int\<close> raise, and the run ends with no table.
\<close>

theorem C4_failing_input:
  "dr_parsed ''1000 0x1 0x2'' = Some (4096, 1, 2) \<and>
   re_match rx_dr ''1000 x1 0x5'' = Some [''1000'', ''x1'', ''0x5''] \<and>
   parse_addr ''x1'' = Inl ValueError \<and>
   build_ranges ex_bad_dump = Inl ValueError"
proof -
  have m: "re_match rx_dr ''1000 x1 0x5'' = Some [''1000'', ''x1'', ''0x5'']" by code_simp
  have p: "parse_addr ''x1'' = Inl ValueError" by code_simp
  have d: "dr_parsed ''1000 0x1 0x2'' = Some (4096, 1, 2)" by code_simp
  have "build_ranges ex_bad_dump = Inl ValueError"
    by (rule build_ranges_bad_token[OF _ m]) (simp_all add: ex_bad_dump_def grp_def p)
  with m p d show ?thesis by simp
qed

text \<open>
  C5. On a line that carries the high address as an unsigned delta (the delta pattern
  matches, the low-address and the absolute high-address patterns do not), with a delta
  of at most 4300 digits, which \<open>int\<close> reads, an entry whose \<open>low\<close> is set gets
  \<open>high = low + delta\<close>. On an entry whose \<open>low\<close> is not set no line changes \<open>high\<close>,
  and none raises. The direct pair of an entry changes the emission state only when
  \<open>low\<close> and \<open>high\<close> are both set and \<open>high > low\<close>.
\<close>

theorem C5_high_from_delta:
  "(re_search rx_low line = None \<and> re_search rx_hia line = None \<and>
    re_search rx_hiud line = Some m \<and> low cur = Some l \<and>
    length (grp 1 m) \<le> int_max_str_digits \<longrightarrow>
      attr_line cur line = Inr (cur\<lparr>high := Some (l + dec_val (grp 1 m))\<rparr>)) \<and>
   (low cur = None \<longrightarrow> (\<exists>c'. attr_line cur line = Inr c' \<and> high c' = high cur)) \<and>
   (emit_direct n d st \<noteq> st \<longrightarrow> (\<exists>lo hi. low d = Some lo \<and> high d = Some hi \<and> lo < hi))"
  using attr_line_delta[of line m cur l] attr_line_no_low[of cur line] emit_direct_only_wide[of n d st]
  by blast

theorem C5_witness:
  "re_search rx_low ex_udata_line = None \<and>
   re_search rx_hia ex_udata_line = None \<and>
   re_search rx_hiud ex_udata_line = Some [''32''] \<and>
   low ex_low_only = Some 256 \<and>
   length (grp 1 [''32'']) = 2 \<and>
   attr_line ex_low_only ex_udata_line = Inr (ex_low_only\<lparr>high := Some 288\<rparr>) \<and>
   low subprogram = None \<and>
   (\<exists>c'. attr_line subprogram ex_udata_line = Inr c' \<and> high c' = None) \<and>
   emit_direct (Some ''foo'') (ex_low_only\<lparr>high := Some 288\<rparr>) ([], 0) =
     ([\<lparr>f_start = 256, f_end = 288, f_name = ''foo''\<rparr>], 0)"
proof -
  have s: "re_search rx_low ex_udata_line = None" "re_search rx_hia ex_udata_line = None"
    "re_search rx_hiud ex_udata_line = Some [''32'']"
    by code_simp+
  have l: "low ex_low_only = Some 256" "low subprogram = None" "high subprogram = None"
    by (simp_all add: ex_low_only_def subprogram_def new_die_def)
  have n: "length (grp 1 [''32'']) = 2" "length (grp 1 [''32'']) \<le> int_max_str_digits"
    by (simp_all add: grp_def int_max_str_digits_def)
  note c5 = C5_high_from_delta[of ex_udata_line "[''32'']" ex_low_only 256]
    C5_high_from_delta[of ex_udata_line "[''32'']" subprogram 256]
  from c5(1) s l(1) n(2)
  have a: "attr_line ex_low_only ex_udata_line =
      Inr (ex_low_only\<lparr>high := Some (256 + dec_val (grp 1 [''32'']))\<rparr>)"
    by blast
  have v: "256 + dec_val (grp 1 [''32'']) = 288" by code_simp
  from c5(2) l have b: "\<exists>c'. attr_line subprogram ex_udata_line = Inr c' \<and> high c' = None"
    by simp
  have e: "emit_direct (Some ''foo'') (ex_low_only\<lparr>high := Some 288\<rparr>) ([], 0) =
     ([\<lparr>f_start = 256, f_end = 288, f_name = ''foo''\<rparr>], 0)"
    by (simp add: emit_direct_def emit_range_def truthy_def ex_low_only_def)
  from a v e s l b n(1) show ?thesis by simp
qed

text \<open>
  C6. With the rename map \<open>{"obf": "Original"}\<close>, a subprogram-like entry with at least
  one pair passing the width check appends each of these pairs under the name
  \<open>Original\<close>, both when its own name is \<open>obf\<close> and when it has no name and its
  abstract origin is the offset of an entry named \<open>obf\<close>.
\<close>

theorem C6_rename:
  assumes "subprogram_like d" and "emittable_pairs rm d \<noteq> []"
      and "(name d = Some ''obf'') \<or>
           (\<not> truthy (name d) \<and> abs_ref d = Some r \<and> dies_by_off dies r = Some d2 \<and>
            name d2 = Some ''obf'')"
  shows "emit_die [''obf'' \<mapsto> ''Original''] sw rm dies d st =
           (fst st @ map (named ''Original'') (emittable_pairs rm d), snd st)"
proof -
  let ?nm = "[''obf'' \<mapsto> ''Original'']"
  have "emit_name ?nm sw dies d = Some ''Original''"
    using assms(3)
  proof
    assume "name d = Some ''obf''"
    then show ?thesis
      using emit_name_direct[of d "''obf''" ?nm sw dies]
      by (simp add: map_get_def plain_not_mangled)
  next
    assume "\<not> truthy (name d) \<and> abs_ref d = Some r \<and> dies_by_off dies r = Some d2 \<and>
            name d2 = Some ''obf''"
    then show ?thesis
      using emit_name_one_hop[of d r dies d2 "''obf''" ?nm sw]
      by (simp add: map_get_def plain_not_mangled)
  qed
  with assms(1) show ?thesis by (simp add: emit_die_named)
qed

theorem C6_witness:
  "subprogram_like ex_obf \<and> emittable_pairs Map.empty ex_obf = [(1, 2)] \<and>
   name ex_obf = Some ''obf'' \<and>
   emit_die [''obf'' \<mapsto> ''Original''] no_swift Map.empty [ex_obf, ex_inlined] ex_obf ([], 0) =
     ([\<lparr>f_start = 1, f_end = 2, f_name = ''Original''\<rparr>], 0) \<and>
   subprogram_like ex_inlined \<and> emittable_pairs Map.empty ex_inlined = [(4, 8)] \<and>
   \<not> truthy (name ex_inlined) \<and> abs_ref ex_inlined = Some 16 \<and>
   dies_by_off [ex_obf, ex_inlined] 16 = Some ex_obf \<and>
   emit_die [''obf'' \<mapsto> ''Original''] no_swift Map.empty [ex_obf, ex_inlined] ex_inlined ([], 0) =
     ([\<lparr>f_start = 4, f_end = 8, f_name = ''Original''\<rparr>], 0)"
  using C6_rename[of ex_obf Map.empty 16 "[ex_obf, ex_inlined]" ex_obf no_swift "([], 0)"]
    C6_rename[of ex_inlined Map.empty 16 "[ex_obf, ex_inlined]" ex_obf no_swift "([], 0)"]
  by code_simp


text \<open>
  C8. Every element of the printed \<open>functions\<close> list has \<open>end > start\<close> and a
  non-empty name. A subprogram-like entry that has at least one pair passing the width
  check and for which \<open>resolve_name\<close> finds no name leaves \<open>funcs\<close> as it was and
  adds one to \<open>miss_name\<close> for each such pair.
\<close>

theorem C8_valid_and_missing:
  "(\<forall>f \<in> set (final_funcs nm sw rm dies). f_start f < f_end f \<and> f_name f \<noteq> []) \<and>
   (subprogram_like d \<and> emittable_pairs rm d \<noteq> [] \<and>
    \<not> truthy (fst (resolve_name nm dies d {})) \<longrightarrow>
      fst (emit_die nm sw rm dies d st) = fst st \<and>
      snd (emit_die nm sw rm dies d st) = snd st + length (emittable_pairs rm d) \<and>
      snd st < snd (emit_die nm sw rm dies d st))"
  using emit_all_valid[of nm sw rm dies]
  by (auto simp: set_final_funcs list_all_iff valid_range_def emit_die_unnamed
      resolve_falsy_emit_falsy)

theorem C8_witness:
  "final_funcs Map.empty no_swift ex_ranges [ex_named, ex_unnamed] =
     [\<lparr>f_start = 1, f_end = 2, f_name = ''f''\<rparr>, \<lparr>f_start = 1, f_end = 2, f_name = ''f''\<rparr>] \<and>
   subprogram_like ex_unnamed \<and> emittable_pairs ex_ranges ex_unnamed = [(3, 5)] \<and>
   \<not> truthy (fst (resolve_name Map.empty [ex_named, ex_unnamed] ex_unnamed {})) \<and>
   emit_die Map.empty no_swift ex_ranges [ex_named, ex_unnamed] ex_unnamed ([], 0) = ([], 1)"
  using C8_valid_and_missing[of Map.empty no_swift ex_ranges "[ex_named, ex_unnamed]"
      ex_unnamed "([], 0)"]
  by code_simp

text \<open>
  C9. The rename map is applied once by \<open>resolve_name\<close> at each level of the chain and
  once more by \<open>maybe_demangle\<close>: an entry with the direct name \<open>n\<close> is emitted under
  the demangled \<open>map (map n)\<close>, an entry that takes \<open>n\<close> from its abstract origin under
  the demangled \<open>map (map (map n))\<close>. With a map that sends \<open>a\<close> to \<open>b\<close> and \<open>b\<close> to
  \<open>c\<close>, a subprogram-like entry named \<open>a\<close> appends its ranges under the name \<open>c\<close>.
\<close>

theorem C9_rename_repeated:
  "(name d = Some n \<and> n \<noteq> [] \<and> map_get nm n \<noteq> [] \<longrightarrow>
      emit_name nm sw dies d = Some (swift_demangle_one sw (map_get nm (map_get nm n)))) \<and>
   (\<not> truthy (name d) \<and> abs_ref d = Some r \<and> dies_by_off dies r = Some d2 \<and>
    name d2 = Some n \<and> n \<noteq> [] \<and> map_get nm n \<noteq> [] \<and> map_get nm (map_get nm n) \<noteq> [] \<longrightarrow>
      emit_name nm sw dies d =
        Some (swift_demangle_one sw (map_get nm (map_get nm (map_get nm n))))) \<and>
   (nm ''a'' = Some ''b'' \<and> nm ''b'' = Some ''c'' \<and> name d = Some ''a'' \<and> subprogram_like d \<longrightarrow>
      emit_name nm sw dies d = Some ''c'' \<and>
      emit_die nm sw rm dies d st = (fst st @ map (named ''c'') (emittable_pairs rm d), snd st))"
proof (intro conjI impI)
  assume "name d = Some n \<and> n \<noteq> [] \<and> map_get nm n \<noteq> []"
  then show "emit_name nm sw dies d = Some (swift_demangle_one sw (map_get nm (map_get nm n)))"
    by (simp add: emit_name_direct)
next
  assume "\<not> truthy (name d) \<and> abs_ref d = Some r \<and> dies_by_off dies r = Some d2 \<and>
    name d2 = Some n \<and> n \<noteq> [] \<and> map_get nm n \<noteq> [] \<and> map_get nm (map_get nm n) \<noteq> []"
  then show "emit_name nm sw dies d =
        Some (swift_demangle_one sw (map_get nm (map_get nm (map_get nm n))))"
    using emit_name_one_hop[of d r dies d2 n nm sw] by simp
next
  assume h: "nm ''a'' = Some ''b'' \<and> nm ''b'' = Some ''c'' \<and> name d = Some ''a'' \<and> subprogram_like d"
  then show c: "emit_name nm sw dies d = Some ''c''"
    using emit_name_direct[of d "''a''" nm sw dies]
    by (simp add: map_get_def swift_demangle_one_def swift_mangled_def)
  from h c show "emit_die nm sw rm dies d st =
      (fst st @ map (named ''c'') (emittable_pairs rm d), snd st)"
    by (simp add: emit_die_named)
qed

theorem C9_witness:
  "ex_chain_map ''a'' = Some ''b'' \<and> ex_chain_map ''b'' = Some ''c'' \<and>
   name ex_a = Some ''a'' \<and> subprogram_like ex_a \<and>
   emit_name ex_chain_map no_swift [ex_a] ex_a = Some ''c'' \<and>
   emit_die ex_chain_map no_swift Map.empty [ex_a] ex_a ([], 0) =
     ([\<lparr>f_start = 1, f_end = 2, f_name = ''c''\<rparr>], 0) \<and>
   final_funcs ex_chain_map no_swift Map.empty [ex_a] = [\<lparr>f_start = 1, f_end = 2, f_name = ''c''\<rparr>]"
  using C9_rename_repeated[of ex_a "''a''" ex_chain_map no_swift "[ex_a]" 0 ex_a Map.empty "([], 0)"]
  by code_simp

text \<open>
  C10. A line whose leading run of hexadecimal digits (after the leading white space) is
  shorter than four does not match the ranges pattern; the loop body leaves the state as
  it is, and the table built from a dump is the one built from the dump without the line.
\<close>

theorem C10_short_offset_ignored:
  assumes "length (takeWhile is_hex (dropWhile is_space raw)) < 4"
  shows "re_match rx_dr raw = None \<and> dr_line st raw = Inr st \<and>
         build_ranges (xs @ raw # ys) = build_ranges (xs @ ys)"
proof -
  have m: "re_match rx_dr raw = None" using assms by (rule rx_dr_short_offset)
  then have l: "dr_line st' raw = Inr st'" for st' by (simp add: dr_line_def)
  have "dr_lines (Map.empty, 0) (xs @ raw # ys) = dr_lines (Map.empty, 0) (xs @ ys)"
    by (simp add: dr_lines_append l split: sum.splits)
  with m l show ?thesis by (simp add: build_ranges_def)
qed

theorem C10_witness:
  "length (takeWhile is_hex (dropWhile is_space '' abc 0x1 0x2'')) = 3 \<and>
   re_match rx_dr '' abc 0x1 0x2'' = None \<and>
   table_at (build_ranges ['' abc 0x1 0x2'', ''0abc 0x3 0x4'']) 2748 = Some [(3, 4)]"
proof -
  have body: ?thesis by code_simp
  show ?thesis
    using C10_short_offset_ignored[of "'' abc 0x1 0x2''" "(Map.empty, 0)" "[]" "[''0abc 0x3 0x4'']"]
      body
    by blast
qed

end
